theory Spec2Isabelle
  imports Complex_Main "HOL-Library.Multiset" "HOL-Library.Signed_Division"
begin

section \<open>Operator nodes\<close>

text \<open>
  \<open>index_t\<close> is a signed 64-bit integer in the source. It is modelled as \<open>int\<close>, and
  \<open>index_wrap\<close> is the value that a 64-bit result takes: the representative in
  \<open>[-2^63, 2^63)\<close> modulo \<open>2^64\<close>. The products of sizes that the modelled classes form
  (\<open>RepMatOp::Size\<close>, \<open>FlattenOp::Size\<close>) are wrapped; the other arithmetic of the model is
  on coordinates within a node's sizes and on sizes themselves, where it stays in range.
\<close>

type_synonym index_t = int

definition index_wrap :: "int \<Rightarrow> index_t" where
  "index_wrap x = (x + 2 ^ 63) mod 2 ^ 64 - 2 ^ 63"

text \<open>The error codes thrown by \<open>MATX_ASSERT_STR\<close> and \<open>MATX_THROW\<close> in the modelled code.\<close>

datatype matxError = matxInvalidDim | matxInvalidParameter | matxInvalidSize

text \<open>
  Every node of an expression tree is a C++ class with a static \<open>Rank()\<close>, a \<open>Size(dim)\<close>
  and an element access \<open>operator()(indices...)\<close>. The view classes are templates over the
  type of the node they wrap and use nothing else of it, so a node is the record of these
  three members. \<open>get_value\<close> takes the coordinates as the array that the source builds
  from the parameter pack.
\<close>

record 'a Op =
  Rank :: nat
  Size :: "nat \<Rightarrow> index_t"
  get_value :: "index_t list \<Rightarrow> 'a"

definition Shape :: "'a Op \<Rightarrow> index_t list" where
  "Shape op = map (Size op) [0..<Rank op]"

text \<open>A coordinate tuple is valid for a node: one coordinate per dimension, each in
  \<open>[0, Size(dim))\<close>.\<close>

definition in_range :: "index_t list \<Rightarrow> index_t list \<Rightarrow> bool" where
  "in_range shape idx = list_all2 (\<lambda>s i. 0 \<le> i \<and> i < s) shape idx"

section \<open>Shape and index algebra\<close>

text \<open>
  Modelled from the spec: \<open>TotalSize\<close> and \<open>GetIdxFromAbs\<close> are called by the executor and
  by the flatten iterator, and their definitions are not part of the sources at hand. The
  spec (4.1) gives them: the total element count is the product of all dimension sizes
  (1 for rank 0), and the coordinate tuple of a flat index is taken in row-major order,
  the last dimension varying fastest.
\<close>

fun GetIdxFromAbs_shape :: "index_t list \<Rightarrow> index_t \<Rightarrow> index_t list" where
  "GetIdxFromAbs_shape [] k = []"
| "GetIdxFromAbs_shape (s # rest) k =
     (k div prod_list rest) # GetIdxFromAbs_shape rest (k mod prod_list rest)"

text \<open>Modelled from the spec: the reverse mapping, from coordinates to the flat index.\<close>

fun GetAbsFromIdx_shape :: "index_t list \<Rightarrow> index_t list \<Rightarrow> index_t" where
  "GetAbsFromIdx_shape (s # rest) (i # is) = i * prod_list rest + GetAbsFromIdx_shape rest is"
| "GetAbsFromIdx_shape _ _ = 0"

definition TotalSize :: "'a Op \<Rightarrow> index_t" where
  "TotalSize op = prod_list (Shape op)"

definition GetIdxFromAbs :: "'a Op \<Rightarrow> index_t \<Rightarrow> index_t list" where
  "GetIdxFromAbs op k = GetIdxFromAbs_shape (Shape op) k"

text \<open>
  Modelled from the spec: a dense tensor, the leaf of an expression tree. The tensor class
  is not part of the sources at hand; it stores its elements in row-major order.
\<close>

definition tensor :: "index_t list \<Rightarrow> 'a list \<Rightarrow> 'a Op" where
  "tensor shape data =
     \<lparr>Rank = length shape,
      Size = (\<lambda>dim. shape ! dim),
      get_value = (\<lambda>idx. data ! nat (GetAbsFromIdx_shape shape idx))\<rparr>"

section \<open>Reverse\<close>

text \<open>
  \<open>ReverseOp<DIM, T1>\<close> (reverse.h). \<open>get_impl\<close> copies the coordinates into an array and
  overwrites entry \<open>DIM\<close>; for rank 0 it calls the inner node without coordinates. The
  source indexes a fixed-size array, so \<open>DIM\<close> is below the rank wherever it compiles.
\<close>

definition ReverseOp_get_impl :: "nat \<Rightarrow> 'a Op \<Rightarrow> index_t list \<Rightarrow> 'a" where
  "ReverseOp_get_impl DIM op indices =
     (if Rank op = 0 then get_value op []
      else get_value op (indices[DIM := Size op DIM - indices ! DIM - 1]))"

definition ReverseOp :: "nat \<Rightarrow> 'a Op \<Rightarrow> 'a Op" where
  "ReverseOp DIM op =
     \<lparr>Rank = Rank op,
      Size = (\<lambda>dim. Size op dim),
      get_value = ReverseOp_get_impl DIM op\<rparr>"

section \<open>Repeat\<close>




section \<open>Flatten\<close>

text \<open>
  Modelled from the spec: \<open>FlattenOp::operator()\<close> returns \<open>*RandomOperatorIterator{op1_, id0}\<close>,
  and the iterator class is not part of the sources at hand. By the spec (4.4) the element
  at flat index \<open>k\<close> is the inner node's element at the coordinate tuple that the
  flat-to-coordinate mapping gives for the inner node's shape.
\<close>

definition RandomOperatorIterator_deref :: "'a Op \<Rightarrow> index_t \<Rightarrow> 'a" where
  "RandomOperatorIterator_deref op k = get_value op (GetIdxFromAbs op k)"

text \<open>\<open>FlattenOp<T1>\<close> (flatten.h): rank 1; \<open>Size\<close> multiplies the inner sizes in a loop,
  each product in \<open>index_t\<close>.\<close>

definition FlattenOp_Size :: "'a Op \<Rightarrow> nat \<Rightarrow> index_t" where
  "FlattenOp_Size op1 d =
     (if d = 0 then fold (\<lambda>r size. index_wrap (size * Size op1 r)) [0..<Rank op1] 1 else 1)"

definition FlattenOp :: "'a Op \<Rightarrow> 'a Op" where
  "FlattenOp op1 =
     \<lparr>Rank = 1,
      Size = FlattenOp_Size op1,
      get_value = (\<lambda>idx. RandomOperatorIterator_deref op1 (idx ! 0))\<rparr>"

text \<open>\<open>flatten(a)\<close>: a node of rank 0 or 1 is returned as it is.\<close>

definition flatten :: "'a Op \<Rightarrow> 'a Op" where
  "flatten a = (if Rank a \<le> 1 then a else FlattenOp a)"

section \<open>Slice\<close>

text \<open>
  The sentinel values \<open>matxEnd\<close>, \<open>matxDropDim\<close>, \<open>matxKeepDim\<close> and the threshold
  \<open>matxIdxSentinel\<close> are used by the slice constructor and declared outside the sources at
  hand, so they are parameters of the model. \<open>sentinels_ok\<close> says what the constructor
  relies on: the three markers are distinct values above the threshold.
\<close>

record sentinels =
  matxIdxSentinel :: index_t
  matxEnd :: index_t
  matxDropDim :: index_t
  matxKeepDim :: index_t


text \<open>An instance for concrete evaluation: markers at the top of a 64-bit \<open>index_t\<close>.\<close>

definition sentinels64 :: sentinels where
  "sentinels64 =
     \<lparr>matxIdxSentinel = 2 ^ 63 - 5,
      matxEnd = 2 ^ 63 - 3,
      matxDropDim = 2 ^ 63 - 2,
      matxKeepDim = 2 ^ 63 - 1\<rparr>"

text \<open>
  The members \<open>sizes_\<close>, \<open>dims_\<close>, \<open>starts_\<close>, \<open>strides_\<close> of \<open>SliceOp<DIM, T, StrideType>\<close>
  (the last class of hist.h). The constructor fills the arrays front to back, so each
  array is the list of the entries written so far. A kept dimension beyond the rank \<open>DIM\<close>
  of the slice would be written past the end of \<open>dims_\<close> and \<open>sizes_\<close> before the final
  assertion fails; the model keeps the entries and fails at that assertion.
\<close>

record SliceOp_members =
  SliceOp_sizes :: "index_t list"
  SliceOp_dims :: "nat list"
  SliceOp_starts :: "index_t list"
  SliceOp_strides :: "index_t list"

text \<open>The constructor's \<open>v < 0 ? op.Size(i) + v : v\<close>, for a start and for an end.\<close>

definition resolve_index :: "index_t \<Rightarrow> index_t \<Rightarrow> index_t" where
  "resolve_index sz v = (if v < 0 then sz + v else v)"

text \<open>
  The constructor's loop over the inner dimensions \<open>i\<close>. A failed \<open>MATX_ASSERT_STR\<close> throws
  and is the \<open>Inl\<close> result. \<open>strides = None\<close> is \<open>StrideType = NoStride\<close>. With strides, the
  size is \<open>std::ceil\<close> of a quotient of doubles, read at \<open>strides_[d]\<close> for the output
  dimension \<open>d\<close>; the quotient is taken in the reals, which agrees with doubles for sizes
  below \<open>2^53\<close> and a non-zero stride.
\<close>

fun SliceOp_loop ::
  "sentinels \<Rightarrow> 'a Op \<Rightarrow> index_t list \<Rightarrow> index_t list \<Rightarrow> index_t list option
     \<Rightarrow> nat list \<Rightarrow> SliceOp_members \<Rightarrow> matxError + SliceOp_members" where
  "SliceOp_loop c op starts ends strides [] m = Inr m"
| "SliceOp_loop c op starts ends strides (i # rest) m =
     (let start = resolve_index (Size op i) (starts ! i);
          endv = resolve_index (Size op i) (ends ! i)
      in if \<not> (start > matxIdxSentinel c \<or> start < Size op i) then Inl matxInvalidDim
         else if \<not> (endv > matxIdxSentinel c \<or> endv \<le> Size op i) then Inl matxInvalidDim
         else
           let m1 = m\<lparr>SliceOp_starts := SliceOp_starts m @ [start],
                      SliceOp_strides := (case strides of None \<Rightarrow> SliceOp_strides m
                                   | Some s \<Rightarrow> SliceOp_strides m @ [s ! i])\<rparr>;
               d = length (SliceOp_dims m1)
           in if endv \<noteq> matxDropDim c then
                if \<not> endv \<noteq> matxKeepDim c then Inl matxInvalidParameter
                else
                  let sz = (if endv = matxEnd c then Size op i - start else endv - start);
                      sz' = (case strides of None \<Rightarrow> sz
                             | Some s \<Rightarrow> \<lceil>real_of_int sz / real_of_int (SliceOp_strides m1 ! d)\<rceil>)
                  in SliceOp_loop c op starts ends strides rest
                       (m1\<lparr>SliceOp_dims := SliceOp_dims m1 @ [i],
                           SliceOp_sizes := SliceOp_sizes m1 @ [sz']\<rparr>)
              else SliceOp_loop c op starts ends strides rest m1)"

text \<open>
  The whole constructor: the loop over all inner dimensions, then the assertion that the
  number of kept dimensions is the rank \<open>DIM\<close> of the slice.
\<close>

definition SliceOp_ctor ::
  "sentinels \<Rightarrow> nat \<Rightarrow> 'a Op \<Rightarrow> index_t list \<Rightarrow> index_t list \<Rightarrow> index_t list option
     \<Rightarrow> matxError + SliceOp_members" where
  "SliceOp_ctor c DIM op starts ends strides =
     (case SliceOp_loop c op starts ends strides [0..<Rank op]
             \<lparr>SliceOp_sizes = [], SliceOp_dims = [], SliceOp_starts = [], SliceOp_strides = []\<rparr> of
        Inl e \<Rightarrow> Inl e
      | Inr m \<Rightarrow> if \<not> length (SliceOp_dims m) = DIM then Inl matxInvalidDim else Inr m)"

text \<open>
  \<open>SliceOp::get_impl\<close>: the inner coordinates start as a copy of \<open>starts\<close>; the double loop
  overwrites entry \<open>i\<close> for the output dimension \<open>j\<close> with \<open>dims[j] == i\<close>. It has no error
  path.
\<close>

definition SliceOp_get_impl ::
  "'a Op \<Rightarrow> index_t list \<Rightarrow> index_t list option \<Rightarrow> nat list \<Rightarrow> index_t list \<Rightarrow> 'a" where
  "SliceOp_get_impl op starts strides dims inds =
     get_value op
       (fold (\<lambda>i ind.
          fold (\<lambda>j ind.
            if dims ! j = i then
              (case strides of
                 Some s \<Rightarrow> ind[i := starts ! j + inds ! j * s ! i]
               | None \<Rightarrow> ind[i := starts ! j + inds ! j])
            else ind) [0..<length dims] ind) [0..<Rank op] starts)"

text \<open>\<open>slice<N>(op, starts, ends, strides)\<close> for a node that is not a tensor view.\<close>

definition slice ::
  "sentinels \<Rightarrow> nat \<Rightarrow> 'a Op \<Rightarrow> index_t list \<Rightarrow> index_t list \<Rightarrow> index_t list option
     \<Rightarrow> matxError + 'a Op" where
  "slice c N op starts ends strides =
     (case SliceOp_ctor c N op starts ends strides of
        Inl e \<Rightarrow> Inl e
      | Inr m \<Rightarrow> Inr \<lparr>Rank = N,
                      Size = (\<lambda>dim. SliceOp_sizes m ! dim),
                      get_value = SliceOp_get_impl op (SliceOp_starts m)
                        (case strides of None \<Rightarrow> None | Some s \<Rightarrow> Some (SliceOp_strides m))
                        (SliceOp_dims m)\<rparr>)"

section \<open>One-dimensional interpolation\<close>














section \<open>Capability negotiation\<close>

text \<open>
  The capability kinds. The modelled classes name one kind, \<open>ELEMENTS_PER_THREAD\<close>, and treat
  all others alike; \<open>'k\<close> is the type of the other kinds.
\<close>

datatype 'k OperatorCapability = ELEMENTS_PER_THREAD | OTHER_CAPABILITY 'k

text \<open>
  Modelled from the spec: the enumeration \<open>ElementsPerThread\<close>, \<open>capability_attributes\<close> and
  \<open>combine_capabilities\<close> are declared outside the sources at hand. By the spec (4.3) a
  granularity is the number of contiguous elements processed per step, the smallest being
  1; every kind has a default value and a binary combination, which for the granularity
  is the minimum. The default values and the combination of the other kinds are
  parameters.
\<close>

type_synonym ElementsPerThread = nat

definition ONE :: ElementsPerThread where
  "ONE = 1"

record 'k capability_attributes =
  default_value :: "'k OperatorCapability \<Rightarrow> nat"
  combine_other :: "'k \<Rightarrow> nat \<Rightarrow> nat \<Rightarrow> nat"

definition combine_capabilities ::
  "'k capability_attributes \<Rightarrow> 'k OperatorCapability \<Rightarrow> nat \<Rightarrow> nat list \<Rightarrow> nat" where
  "combine_capabilities A Cap self_cap inner_caps =
     (case Cap of
        ELEMENTS_PER_THREAD \<Rightarrow> fold min inner_caps self_cap
      | OTHER_CAPABILITY k \<Rightarrow> fold (\<lambda>c acc. combine_other A k acc c) inner_caps self_cap)"

text \<open>
  The node classes of the sources by the way they answer \<open>get_capability\<close>: a leaf declares
  its own values; slice, reverse, remap, repeat, flatten and interp1 return \<open>ONE\<close> for
  \<open>ELEMENTS_PER_THREAD\<close> and combine the default with their operands otherwise; the
  transform classes (hist, cov, stdd, argmin, all) and a custom operator always combine
  the default with their operands.
\<close>

datatype 'k node =
    Leaf "'k OperatorCapability \<Rightarrow> nat"
  | SliceNode "'k node"
  | ReverseNode "'k node"
  | RemapNode "'k node" "'k node"
  | RepMatNode "'k node"
  | FlattenNode "'k node"
  | Interp1Node "'k node" "'k node" "'k node"
  | TransformNode "'k node"
  | CustomNode "'k node list"

fun get_capability :: "'k capability_attributes \<Rightarrow> 'k OperatorCapability \<Rightarrow> 'k node \<Rightarrow> nat" where
  "get_capability A Cap (Leaf declared) = declared Cap"
| "get_capability A Cap (SliceNode op) =
     (if Cap = ELEMENTS_PER_THREAD then ONE
      else combine_capabilities A Cap (default_value A Cap) [get_capability A Cap op])"
| "get_capability A Cap (ReverseNode op) =
     (if Cap = ELEMENTS_PER_THREAD then ONE
      else combine_capabilities A Cap (default_value A Cap) [get_capability A Cap op])"
| "get_capability A Cap (RemapNode op idx) =
     (if Cap = ELEMENTS_PER_THREAD then ONE
      else combine_capabilities A Cap (default_value A Cap)
             [get_capability A Cap op, get_capability A Cap idx])"
| "get_capability A Cap (RepMatNode op) =
     (if Cap = ELEMENTS_PER_THREAD then ONE
      else combine_capabilities A Cap (default_value A Cap) [get_capability A Cap op])"
| "get_capability A Cap (FlattenNode op1) =
     (if Cap = ELEMENTS_PER_THREAD then ONE
      else combine_capabilities A Cap (default_value A Cap) [get_capability A Cap op1])"
| "get_capability A Cap (Interp1Node x v xq) =
     (if Cap = ELEMENTS_PER_THREAD then ONE
      else combine_capabilities A Cap (default_value A Cap)
             [get_capability A Cap x, get_capability A Cap v, get_capability A Cap xq])"
| "get_capability A Cap (TransformNode a) =
     combine_capabilities A Cap (default_value A Cap) [get_capability A Cap a]"
| "get_capability A Cap (CustomNode ops) =
     combine_capabilities A Cap (default_value A Cap) (map (get_capability A Cap) ops)"

text \<open>The values that the leaves of a tree declare, and the well-formedness of its
  granularities: no leaf and no default is below \<open>ONE\<close>.\<close>

fun leaves_declare :: "'k node \<Rightarrow> ('k OperatorCapability \<Rightarrow> nat) list" where
  "leaves_declare (Leaf declared) = [declared]"
| "leaves_declare (SliceNode op) = leaves_declare op"
| "leaves_declare (ReverseNode op) = leaves_declare op"
| "leaves_declare (RemapNode op idx) = leaves_declare op @ leaves_declare idx"
| "leaves_declare (RepMatNode op) = leaves_declare op"
| "leaves_declare (FlattenNode op1) = leaves_declare op1"
| "leaves_declare (Interp1Node x v xq) = leaves_declare x @ leaves_declare v @ leaves_declare xq"
| "leaves_declare (TransformNode a) = leaves_declare a"
| "leaves_declare (CustomNode ops) = concat (map leaves_declare ops)"

definition granularity_ok :: "'k capability_attributes \<Rightarrow> 'k node \<Rightarrow> bool" where
  "granularity_ok A t =
     (ONE \<le> default_value A ELEMENTS_PER_THREAD
      \<and> list_all (\<lambda>declared. ONE \<le> declared ELEMENTS_PER_THREAD) (leaves_declare t))"

section \<open>Host executor\<close>

text \<open>
  \<open>HostExecutor::Exec\<close> (host.h) calls \<open>op(args...)\<close> for its effect and drops the value. An
  executable node is therefore a rank, the sizes and the effect \<open>call\<close> of one invocation on
  the memory that the expression writes, held as the elements by coordinate tuple.
\<close>

type_synonym 'a memory = "index_t list \<Rightarrow> 'a"

record 'a ExecOp =
  Exec_Rank :: nat
  Exec_Size :: "nat \<Rightarrow> index_t"
  call :: "index_t list \<Rightarrow> 'a memory \<Rightarrow> 'a memory"

definition Exec_Shape :: "'a ExecOp \<Rightarrow> index_t list" where
  "Exec_Shape op = map (Exec_Size op) [0..<Exec_Rank op]"

text \<open>
  An element-wise expression assigned to a destination of the given shape: the invocation
  at a coordinate tuple reads the operands and the destination at that tuple only, and
  writes the destination at that tuple. \<open>f idx old\<close> is the value written at \<open>idx\<close>, from
  the fixed input data and the destination's element \<open>old\<close> at \<open>idx\<close>.
\<close>

definition ElementwiseOp :: "index_t list \<Rightarrow> (index_t list \<Rightarrow> 'a \<Rightarrow> 'a) \<Rightarrow> 'a ExecOp" where
  "ElementwiseOp shape f =
     \<lparr>Exec_Rank = length shape,
      Exec_Size = (\<lambda>dim. shape ! dim),
      call = (\<lambda>idx mem. mem(idx := f idx (mem idx)))\<rparr>"




section \<open>Transform lifecycle\<close>

text \<open>
  Modelled from the spec: the allocator (\<open>matxAlloc\<close>, \<open>matxFree\<close>, \<open>AllocateTempTensor\<close>) and
  the tensor descriptor \<open>tensor_impl_t\<close> are declared outside the sources at hand. By the spec
  (6) the allocator has \<open>allocate(size, ...) -> handle\<close> and \<open>free(handle)\<close>. A heap maps the
  live handles to their buffers; a buffer has a number of elements and the cells written
  so far, a fresh buffer having none. Handles are numbered in the order of allocation.
  Freeing a handle that is not live is the error \<open>NotAllocated\<close>; freeing the null pointer
  does nothing.
\<close>

record 'a buffer =
  buf_size :: nat
  cells :: "nat \<rightharpoonup> 'a"

record 'a heap =
  live :: "nat \<rightharpoonup> 'a buffer"
  next_handle :: nat

datatype free_error = NotAllocated

definition heap_ok :: "'a heap \<Rightarrow> bool" where
  "heap_ok hp = (\<forall>p\<in>dom (live hp). p < next_handle hp)"

definition matxAlloc :: "'a heap \<Rightarrow> nat \<Rightarrow> nat \<times> 'a heap" where
  "matxAlloc hp n_elems =
     (next_handle hp,
      hp\<lparr>live := (live hp)(next_handle hp \<mapsto> \<lparr>buf_size = n_elems, cells = Map.empty\<rparr>),
         next_handle := Suc (next_handle hp)\<rparr>)"

definition matxFree :: "'a heap \<Rightarrow> nat option \<Rightarrow> free_error + 'a heap" where
  "matxFree hp ptr =
     (case ptr of
        None \<Rightarrow> Inr hp
      | Some p \<Rightarrow> if p \<in> dom (live hp) then Inr (hp\<lparr>live := (live hp)(p := None)\<rparr>)
                  else Inl NotAllocated)"

text \<open>
  Modelled from the spec: a \<open>tensor_impl_t\<close> is a data pointer and a shape, null and empty
  when default-constructed. Reading it at a coordinate tuple reads the pointed-to buffer at
  the row-major offset; \<open>None\<close> is the undefined read through a null or released pointer
  or of a cell never written.
\<close>

record tensor_impl_t =
  impl_data :: "nat option"
  impl_shape :: "index_t list"

definition tensor_impl_get :: "'a heap \<Rightarrow> tensor_impl_t \<Rightarrow> index_t list \<Rightarrow> 'a option" where
  "tensor_impl_get hp tn indices =
     (case impl_data tn of
        None \<Rightarrow> None
      | Some p \<Rightarrow>
          (case live hp p of
             None \<Rightarrow> None
           | Some b \<Rightarrow> cells b (nat (GetAbsFromIdx_shape (impl_shape tn) indices))))"

text \<open>
  Modelled from the spec: \<open>AllocateTempTensor(tensor, ex, shape, &ptr)\<close> allocates a buffer
  of as many elements as the shape has, stores its handle in \<open>ptr\<close> and makes \<open>tensor\<close> the
  descriptor of that buffer with that shape.
\<close>

definition AllocateTempTensor ::
  "'a heap \<Rightarrow> index_t list \<Rightarrow> tensor_impl_t \<times> nat option \<times> 'a heap" where
  "AllocateTempTensor hp shape =
     (let (p, hp') = matxAlloc hp (nat (prod_list shape))
      in (\<lparr>impl_data = Some p, impl_shape = shape\<rparr>, Some p, hp'))"

text \<open>
  Modelled from the spec: a compute provider is given the output descriptor and fills the
  output for its entire shape (6). \<open>provider_fill hp out g\<close> writes \<open>g idx\<close> to the cell of
  every coordinate tuple \<open>idx\<close> of the shape of \<open>out\<close>.
\<close>

definition provider_fill :: "'a heap \<Rightarrow> tensor_impl_t \<Rightarrow> (index_t list \<Rightarrow> 'a) \<Rightarrow> 'a heap" where
  "provider_fill hp out g =
     (case impl_data out of
        None \<Rightarrow> hp
      | Some p \<Rightarrow>
          (case live hp p of
             None \<Rightarrow> hp
           | Some b \<Rightarrow>
               hp\<lparr>live := (live hp)(p \<mapsto>
                    b\<lparr>cells := (\<lambda>c. if c < nat (prod_list (impl_shape out))
                                     then Some (g (GetIdxFromAbs_shape (impl_shape out) (int c)))
                                     else cells b c)\<rparr>)\<rparr>))"

text \<open>
  The classes \<open>StddOp\<close> and \<open>AllOp\<close> (stdd.h), \<open>HistOp\<close> and \<open>CovOp\<close> (hist.h) have the same members
  \<open>a_\<close>, \<open>out_dims_\<close>, \<open>tmp_out_\<close> and \<open>ptr\<close> and, word for word, the same \<open>operator()\<close>,
  \<open>PreRun\<close> and \<open>PostRun\<close>. They differ in their constructors and in the provider that
  \<open>Exec\<close> calls.

  \<open>PreRun\<close> and \<open>PostRun\<close> of a node call those of its operand when the operand is a matx
  operator, and \<open>tmp_out_\<close> and \<open>ptr\<close> are mutable members, which \<open>PreRun\<close> writes in the
  node and in every transform node below it. So the two functions work on the tree of the
  nodes. \<open>NotMatxOp\<close> is an operand for which the guard \<open>is_matx_op\<close> is false and nothing
  is called. \<open>ForwardOp\<close> is a node whose \<open>PreRun\<close> and \<open>PostRun\<close> only forward to its
  operands: the classes \<open>SliceOp\<close>, \<open>ReverseOp\<close>, \<open>RemapOp\<close>, \<open>RepMatOp\<close> and \<open>FlattenOp\<close>
  forward to their one operand. \<open>TransformOp\<close> is a node of one of the four classes.
  \<open>xf_provider nd hp shape idx\<close> is the value that the class's provider, applied to the
  operand and the parameters of the node, computes in the heap \<open>hp\<close> for the coordinate
  tuple \<open>idx\<close> of an output of the given shape. \<open>'b\<close> is the type of the elements of the
  buffers.

  Modelled from the spec: a node with several inner nodes is not among the sources at
  hand; by the spec (4.1) its hooks forward the call to every inner node. \<open>ForwardOp\<close>
  has the list of the operands, and the calls are made in the order of the list.
\<close>

datatype 'b OpTree =
    NotMatxOp
  | ForwardOp "'b OpTree list"
  | TransformOp
      (xf_a: "'b OpTree")
      (xf_provider: "'b heap \<Rightarrow> index_t list \<Rightarrow> index_t list \<Rightarrow> 'b")
      (xf_out_dims: "index_t list")
      (xf_tmp_out: tensor_impl_t)
      (xf_ptr: "nat option")

text \<open>
  The four constructors. Each copies sizes of the operand \<open>a\<close>, of which \<open>a_tree\<close> is the
  tree, into \<open>out_dims_\<close>; \<open>HistOp\<close> then overwrites the last entry with \<open>num_levels - 1\<close>
  (for an operand of rank 0 the source writes before the array; the model writes
  nothing). Nothing is allocated or computed. The providers \<open>stdd_impl\<close>, \<open>hist_impl\<close>,
  \<open>cov_impl\<close> and \<open>all_impl\<close> are parameters.
\<close>

definition StddOp_ctor ::
  "('a Op \<Rightarrow> int \<Rightarrow> 'b heap \<Rightarrow> index_t list \<Rightarrow> index_t list \<Rightarrow> 'b)
     \<Rightarrow> 'a Op \<Rightarrow> 'b OpTree \<Rightarrow> int \<Rightarrow> nat \<Rightarrow> 'b OpTree" where
  "StddOp_ctor stdd_impl a a_tree ddof ORank =
     TransformOp a_tree (stdd_impl a ddof) (map (Size a) [0..<ORank])
       \<lparr>impl_data = None, impl_shape = []\<rparr> None"

definition HistOp_ctor ::
  "('a Op \<Rightarrow> 'a \<Rightarrow> 'a \<Rightarrow> int \<Rightarrow> 'b heap \<Rightarrow> index_t list \<Rightarrow> index_t list \<Rightarrow> 'b)
     \<Rightarrow> 'a Op \<Rightarrow> 'b OpTree \<Rightarrow> 'a \<Rightarrow> 'a \<Rightarrow> int \<Rightarrow> 'b OpTree" where
  "HistOp_ctor hist_impl a a_tree lower upper num_levels =
     TransformOp a_tree (hist_impl a lower upper num_levels)
       ((map (Size a) [0..<Rank a])[Rank a - 1 := num_levels - 1])
       \<lparr>impl_data = None, impl_shape = []\<rparr> None"

definition CovOp_ctor ::
  "('a Op \<Rightarrow> 'b heap \<Rightarrow> index_t list \<Rightarrow> index_t list \<Rightarrow> 'b)
     \<Rightarrow> 'a Op \<Rightarrow> 'b OpTree \<Rightarrow> 'b OpTree" where
  "CovOp_ctor cov_impl a a_tree =
     TransformOp a_tree (cov_impl a) (map (Size a) [0..<Rank a])
       \<lparr>impl_data = None, impl_shape = []\<rparr> None"

definition AllOp_ctor ::
  "('a Op \<Rightarrow> 'b heap \<Rightarrow> index_t list \<Rightarrow> index_t list \<Rightarrow> 'b)
     \<Rightarrow> 'a Op \<Rightarrow> 'b OpTree \<Rightarrow> nat \<Rightarrow> 'b OpTree" where
  "AllOp_ctor all_impl a a_tree ORank =
     TransformOp a_tree (all_impl a) (map (Size a) [0..<ORank])
       \<lparr>impl_data = None, impl_shape = []\<rparr> None"

text \<open>\<open>operator()\<close> of a transform node: a read of \<open>tmp_out_\<close>.\<close>

definition TransformOp_call :: "'b OpTree \<Rightarrow> 'b heap \<Rightarrow> index_t list \<Rightarrow> 'b option" where
  "TransformOp_call nd hp indices = tensor_impl_get hp (xf_tmp_out nd) indices"

text \<open>\<open>Exec\<close> hands the output, the operand and the node's parameters to the provider.\<close>

definition TransformOp_Exec :: "'b OpTree \<Rightarrow> tensor_impl_t \<Rightarrow> 'b heap \<Rightarrow> 'b heap" where
  "TransformOp_Exec nd out hp = provider_fill hp out (xf_provider nd hp (impl_shape out))"

text \<open>
  \<open>PreRun\<close>. A transform node runs the operand's \<open>PreRun\<close>, allocates \<open>tmp_out_\<close>, and
  runs \<open>Exec\<close> into it. The result is the tree with the members written, and the heap.
\<close>

fun PreRun :: "'b OpTree \<Rightarrow> 'b heap \<Rightarrow> 'b OpTree \<times> 'b heap"
  and PreRun_operands :: "'b OpTree list \<Rightarrow> 'b heap \<Rightarrow> 'b OpTree list \<times> 'b heap" where
  "PreRun NotMatxOp hp = (NotMatxOp, hp)"
| "PreRun (ForwardOp ops) hp =
     (let (ops1, hp1) = PreRun_operands ops hp in (ForwardOp ops1, hp1))"
| "PreRun (TransformOp a prov out_dims tmp_out ptr) hp =
     (let (a1, hp1) = PreRun a hp;
          (tmp, p, hp2) = AllocateTempTensor hp1 out_dims;
          nd1 = TransformOp a1 prov out_dims tmp p
      in (nd1, TransformOp_Exec nd1 (xf_tmp_out nd1) hp2))"
| "PreRun_operands [] hp = ([], hp)"
| "PreRun_operands (op # ops) hp =
     (let (op1, hp1) = PreRun op hp;
          (ops1, hp2) = PreRun_operands ops hp1
      in (op1 # ops1, hp2))"

text \<open>
  \<open>PostRun\<close>. A transform node runs the operand's \<open>PostRun\<close>, then \<open>matxFree(ptr)\<close>; \<open>ptr\<close>
  keeps its value.
\<close>

fun PostRun :: "'b OpTree \<Rightarrow> 'b heap \<Rightarrow> free_error + 'b heap"
  and PostRun_operands :: "'b OpTree list \<Rightarrow> 'b heap \<Rightarrow> free_error + 'b heap" where
  "PostRun NotMatxOp hp = Inr hp"
| "PostRun (ForwardOp ops) hp = PostRun_operands ops hp"
| "PostRun (TransformOp a prov out_dims tmp_out ptr) hp =
     (case PostRun a hp of
        Inl e \<Rightarrow> Inl e
      | Inr hp1 \<Rightarrow> matxFree hp1 ptr)"
| "PostRun_operands [] hp = Inr hp"
| "PostRun_operands (op # ops) hp =
     (case PostRun op hp of
        Inl e \<Rightarrow> Inl e
      | Inr hp1 \<Rightarrow> PostRun_operands ops hp1)"

text \<open>
  A number of matched \<open>PreRun\<close>/\<open>PostRun\<close> cycles on one node instance, each \<open>PostRun\<close>
  on the tree and the heap that its \<open>PreRun\<close> left.
\<close>

fun PreRun_PostRun_cycles ::
  "nat \<Rightarrow> 'b OpTree \<Rightarrow> 'b heap \<Rightarrow> free_error + ('b OpTree \<times> 'b heap)" where
  "PreRun_PostRun_cycles 0 nd hp = Inr (nd, hp)"
| "PreRun_PostRun_cycles (Suc c) nd hp =
     (let (nd1, hp1) = PreRun nd hp
      in case PostRun nd1 hp1 of
           Inl e \<Rightarrow> Inl e
         | Inr hp2 \<Rightarrow> PreRun_PostRun_cycles c nd1 hp2)"

text \<open>The handles that the transform nodes of a tree hold in \<open>ptr\<close>, operands first.\<close>

fun held_ptrs :: "'b OpTree \<Rightarrow> nat list" where
  "held_ptrs NotMatxOp = []"
| "held_ptrs (ForwardOp ops) = concat (map held_ptrs ops)"
| "held_ptrs (TransformOp a prov out_dims tmp_out ptr) =
     held_ptrs a @ (case ptr of None \<Rightarrow> [] | Some p \<Rightarrow> [p])"

text \<open>
  \<open>ArgMinOp<OpA, ORank>\<close> (stdd.h) has the operand as its only member. The
  operand's \<open>PreRun\<close> is the field \<open>ArgMin_a_PreRun\<close>.
\<close>

record ('a, 'b) ArgMinOp =
  ArgMin_a :: "'a Op"
  ArgMin_a_PreRun :: "'b heap \<Rightarrow> 'b heap"
  ArgMin_ORank :: nat

text \<open>
  What the compiler rejects: a call of the deleted \<open>operator()\<close>, and an \<open>Exec\<close> whose
  output tuple fails the \<open>static_assert\<close> on its size.
\<close>

datatype compile_error = DeletedFunction | StaticAssertFailed

definition ArgMinOp_call :: "('a, 'b) ArgMinOp \<Rightarrow> index_t list \<Rightarrow> compile_error + 'a" where
  "ArgMinOp_call nd indices = Inl DeletedFunction"

definition ArgMinOp_Rank :: "('a, 'b) ArgMinOp \<Rightarrow> nat" where
  "ArgMinOp_Rank nd = ArgMin_ORank nd"

definition ArgMinOp_Size :: "('a, 'b) ArgMinOp \<Rightarrow> nat \<Rightarrow> index_t" where
  "ArgMinOp_Size nd d = 0"

text \<open>\<open>PreRun\<close> only forwards to the operand.\<close>

definition ArgMinOp_PreRun :: "('a, 'b) ArgMinOp \<Rightarrow> 'b heap \<Rightarrow> 'b heap" where
  "ArgMinOp_PreRun nd hp = ArgMin_a_PreRun nd hp"

text \<open>
  \<open>Exec(out, ex)\<close>: \<open>out\<close> is the tuple that \<open>mtie\<close> builds, the two bound outputs followed
  by the node itself. The provider \<open>argmin_impl\<close> is a parameter: its effect on the state
  \<open>'s\<close> of the outputs, given the value output, the index output and the operand.
\<close>

definition ArgMinOp_Exec ::
  "('o \<Rightarrow> 'o \<Rightarrow> 'a Op \<Rightarrow> 's \<Rightarrow> 's) \<Rightarrow> ('a, 'b) ArgMinOp \<Rightarrow> 'o list \<Rightarrow> 's \<Rightarrow> compile_error + 's" where
  "ArgMinOp_Exec argmin_impl nd out st =
     (if \<not> length out = 3 then Inl StaticAssertFailed
      else Inr (argmin_impl (out ! 0) (out ! 1) (ArgMin_a nd) st))"

section \<open>Theorems\<close>

lemma in_range_length: "in_range shape idx \<Longrightarrow> length idx = length shape"
  by (simp add: in_range_def list_all2_lengthD)

lemma length_Shape [simp]: "length (Shape op) = Rank op"
  by (simp add: Shape_def)

lemma nth_Shape [simp]: "d < Rank op \<Longrightarrow> Shape op ! d = Size op d"
  by (simp add: Shape_def)

subsection \<open>Row-major index algebra\<close>


lemma in_range_Cons [simp]:
  "in_range (s # shape) (i # idx) \<longleftrightarrow> 0 \<le> i \<and> i < s \<and> in_range shape idx"
  by (simp add: in_range_def)

lemma in_range_Nil [simp]: "in_range [] idx \<longleftrightarrow> idx = []"
  by (simp add: in_range_def)

lemma in_range_Cons_left:
  "in_range (s # shape) idx \<longleftrightarrow> (\<exists>i rest. idx = i # rest \<and> 0 \<le> i \<and> i < s \<and> in_range shape rest)"
  by (cases idx) (auto simp: in_range_def)

lemma in_range_prod_pos: "in_range shape idx \<Longrightarrow> 0 < prod_list shape \<or> shape = []"
proof (induction shape arbitrary: idx)
  case Nil
  then show ?case by simp
next
  case (Cons s shape)
  then obtain i rest where "idx = i # rest" "0 \<le> i" "i < s" "in_range shape rest"
    by (auto simp: in_range_Cons_left)
  then show ?case using Cons.IH [of rest] by (cases "shape = []") auto
qed

lemma GetAbsFromIdx_bounds:
  "in_range shape idx \<Longrightarrow>
   0 \<le> GetAbsFromIdx_shape shape idx \<and> (shape \<noteq> [] \<longrightarrow> GetAbsFromIdx_shape shape idx < prod_list shape)"
proof (induction shape arbitrary: idx)
  case Nil
  then show ?case by simp
next
  case (Cons s shape)
  then obtain i rest where idx: "idx = i # rest" and i: "0 \<le> i" "i < s" and r: "in_range shape rest"
    by (auto simp: in_range_Cons_left)
  show ?case
  proof (cases "shape = []")
    case True
    then show ?thesis using idx i r by simp
  next
    case False
    have P: "0 < prod_list shape" using in_range_prod_pos [OF r] False by simp
    have B: "0 \<le> GetAbsFromIdx_shape shape rest" "GetAbsFromIdx_shape shape rest < prod_list shape"
      using Cons.IH [OF r] False by auto
    have "i * prod_list shape + GetAbsFromIdx_shape shape rest < (i + 1) * prod_list shape"
      using B by (simp add: algebra_simps)
    also have "\<dots> \<le> s * prod_list shape"
      using i P by (intro mult_right_mono) auto
    finally show ?thesis using idx i B P by simp
  qed
qed

lemma GetIdxFromAbs_GetAbsFromIdx:
  "in_range shape idx \<Longrightarrow> GetIdxFromAbs_shape shape (GetAbsFromIdx_shape shape idx) = idx"
proof (induction shape arbitrary: idx)
  case Nil
  then show ?case by simp
next
  case (Cons s shape)
  then obtain i rest where idx: "idx = i # rest" and i: "0 \<le> i" "i < s" and r: "in_range shape rest"
    by (auto simp: in_range_Cons_left)
  show ?case
  proof (cases "shape = []")
    case True
    then show ?thesis using idx r by simp
  next
    case False
    have P: "0 < prod_list shape" using in_range_prod_pos [OF r] False by simp
    have B: "0 \<le> GetAbsFromIdx_shape shape rest" "GetAbsFromIdx_shape shape rest < prod_list shape"
      using GetAbsFromIdx_bounds [OF r] False by auto
    have d: "(i * prod_list shape + GetAbsFromIdx_shape shape rest) div prod_list shape = i"
      using B P by simp
    have m: "(i * prod_list shape + GetAbsFromIdx_shape shape rest) mod prod_list shape
        = GetAbsFromIdx_shape shape rest"
      using B P by simp
    show ?thesis using idx d m Cons.IH [OF r] by simp
  qed
qed

lemma GetIdxFromAbs_in_range:
  "0 \<le> k \<Longrightarrow> k < prod_list shape \<Longrightarrow> \<forall>s\<in>set shape. 0 \<le> s \<Longrightarrow>
   in_range shape (GetIdxFromAbs_shape shape k) \<and> GetAbsFromIdx_shape shape (GetIdxFromAbs_shape shape k) = k"
proof (induction shape arbitrary: k)
  case Nil
  then show ?case by simp
next
  case (Cons s shape)
  have nn: "0 \<le> prod_list shape" using Cons.prems(3) by (simp add: prod_list_nonneg)
  have "prod_list shape \<noteq> 0" using Cons.prems by auto
  then have P: "0 < prod_list shape" using nn by simp
  have s: "0 \<le> s" using Cons.prems by simp
  have m: "0 \<le> k mod prod_list shape" "k mod prod_list shape < prod_list shape"
    using P by simp_all
  have d0: "0 \<le> k div prod_list shape" using Cons.prems(1) P by (simp add: pos_imp_zdiv_nonneg_iff)
  have ks: "k < s * prod_list shape" using Cons.prems(2) by simp
  have d1: "k div prod_list shape < s"
  proof (rule ccontr)
    assume "\<not> k div prod_list shape < s"
    then have "s * prod_list shape \<le> (k div prod_list shape) * prod_list shape"
      using P by (intro mult_right_mono) auto
    also have "\<dots> \<le> k"
      using m(1) by (metis add.commute div_mult_mod_eq le_add_same_cancel2)
    finally show False using \<open>k < s * prod_list shape\<close> by simp
  qed
  have IH: "in_range shape (GetIdxFromAbs_shape shape (k mod prod_list shape))
     \<and> GetAbsFromIdx_shape shape (GetIdxFromAbs_shape shape (k mod prod_list shape)) = k mod prod_list shape"
    using Cons.IH [OF m] Cons.prems(3) by simp
  show ?case using IH d0 d1 by simp
qed

subsection \<open>Reverse\<close>

text \<open>
  C9. Reversing a node twice along the same dimension gives the node back, element for
  element; one reverse reads the inner node at \<open>Size(DIM) - i - 1\<close> in the reversed
  dimension and leaves every other coordinate, the rank and every size as they are.
\<close>

theorem reverse_involution:
  assumes "DIM < Rank t" and "in_range (Shape t) idx"
  shows "get_value (ReverseOp DIM (ReverseOp DIM t)) idx = get_value t idx
    \<and> get_value (ReverseOp DIM t) idx = get_value t (idx[DIM := Size t DIM - idx ! DIM - 1])
    \<and> in_range (Shape (ReverseOp DIM t)) (idx[DIM := Size t DIM - idx ! DIM - 1])
    \<and> Rank (ReverseOp DIM t) = Rank t
    \<and> (\<forall>dim. Size (ReverseOp DIM t) dim = Size t dim)"
proof -
  have len: "length idx = Rank t"
    using assms(2) in_range_length by fastforce
  have twice: "idx[DIM := Size t DIM - (Size t DIM - idx ! DIM - 1) - 1] = idx"
    by (simp add: list_update_same_conv)
  have shape: "Shape (ReverseOp DIM t) = Shape t"
    by (simp add: Shape_def ReverseOp_def)
  have "0 \<le> idx ! DIM \<and> idx ! DIM < Size t DIM"
    using assms len by (auto simp: in_range_def list_all2_conv_all_nth)
  then have rng: "in_range (Shape t) (idx[DIM := Size t DIM - idx ! DIM - 1])"
    using assms len
    by (auto simp: in_range_def list_all2_conv_all_nth nth_list_update)
  have once: "get_value (ReverseOp DIM t) idx
      = get_value t (idx[DIM := Size t DIM - idx ! DIM - 1])"
    using assms(1) by (simp add: ReverseOp_def ReverseOp_get_impl_def)
  have "get_value (ReverseOp DIM (ReverseOp DIM t)) idx = get_value t idx"
    using assms(1) len twice by (simp add: ReverseOp_def ReverseOp_get_impl_def)
  moreover have "Rank (ReverseOp DIM t) = Rank t"
    and "\<forall>dim. Size (ReverseOp DIM t) dim = Size t dim"
    by (simp_all add: ReverseOp_def)
  ultimately show ?thesis
    using once rng shape by simp
qed

theorem reverse_involution_witness:
  "get_value (ReverseOp 1 (ReverseOp 1 (tensor [2, 3] [10, 11, 12, 20, 21, 22 :: int]))) [1, 0] = 20
   \<and> get_value (ReverseOp 1 (tensor [2, 3] [10, 11, 12, 20, 21, 22 :: int])) [1, 0] = 22"
proof -
  let ?t = "tensor [2, 3] [10, 11, 12, 20, 21, 22 :: int]"
  have r: "(1::nat) < Rank ?t"
    by (simp add: tensor_def)
  have i: "in_range (Shape ?t) [1, 0]"
    by (simp add: in_range_def Shape_def tensor_def upt_conv_Cons)
  have v: "get_value ?t [1, 0] = 20" "get_value ?t ([1, 0][1 := Size ?t 1 - [1, 0] ! 1 - 1]) = 22"
    by (simp_all add: tensor_def)
  show ?thesis
    using reverse_involution [OF r i] v by simp
qed

subsection \<open>Repeat and flatten\<close>


lemma index_wrap_representable:
  "- (2 ^ 63) \<le> x \<Longrightarrow> x < 2 ^ 63 \<Longrightarrow> index_wrap x = x"
  by (simp add: index_wrap_def)


lemma index_wrap_mult_left: "index_wrap (index_wrap a * b) = index_wrap (a * b)"
proof -
  have "(index_wrap a * b + 2 ^ 63) mod 2 ^ 64 = (a * b + 2 ^ 63) mod (2 ^ 64 :: int)"
  proof (rule mod_add_cong [OF _ refl], rule mod_mult_cong [OF _ refl])
    show "index_wrap a mod 2 ^ 64 = a mod (2 ^ 64 :: int)"
      by (simp add: index_wrap_def mod_diff_left_eq)
  qed
  then show ?thesis by (simp add: index_wrap_def)
qed

lemma fold_wrap_prod_list:
  "fold (\<lambda>r size. index_wrap (size * f r)) xs (index_wrap a)
     = index_wrap (a * prod_list (map f xs))"
proof (induction xs arbitrary: a)
  case Nil
  then show ?case by simp
next
  case (Cons x xs)
  have "fold (\<lambda>r size. index_wrap (size * f r)) (x # xs) (index_wrap a)
      = fold (\<lambda>r size. index_wrap (size * f r)) xs (index_wrap (a * f x))"
    by (simp add: index_wrap_mult_left)
  also have "\<dots> = index_wrap (a * f x * prod_list (map f xs))"
    by (rule Cons.IH)
  finally show ?case by (simp add: mult.assoc)
qed




text \<open>
  C8 (amended). For an inner node of rank above 1, flatten gives a node of rank 1 whose
  size is the product of the inner sizes as \<open>index_t\<close> holds it; it is that product whenever
  the product is representable in \<open>index_t\<close>. Its element at flat index \<open>k\<close> is the inner
  element at the row-major coordinates of \<open>k\<close>. When the product is representable, these
  coordinates are valid for every \<open>k\<close> in \<open>[0, product)\<close>, and reading the flattened node
  at the flat index of a valid coordinate tuple gives back the inner element at that
  tuple.
\<close>

theorem flatten_size_and_element:
  assumes "1 < Rank t"
  shows "Rank (flatten t) = 1
    \<and> Size (flatten t) 0 = index_wrap (prod_list (Shape t))
    \<and> (\<forall>k. get_value (flatten t) [k] = get_value t (GetIdxFromAbs t k))
    \<and> (- (2 ^ 63) \<le> prod_list (Shape t) \<and> prod_list (Shape t) < 2 ^ 63
        \<longrightarrow> Size (flatten t) 0 = prod_list (Shape t)
          \<and> (\<forall>k. 0 \<le> k \<and> k < Size (flatten t) 0 \<and> (\<forall>s\<in>set (Shape t). 0 \<le> s)
                \<longrightarrow> in_range (Shape t) (GetIdxFromAbs t k))
          \<and> (\<forall>idx. in_range (Shape t) idx
                \<longrightarrow> in_range (Shape (flatten t)) [GetAbsFromIdx_shape (Shape t) idx]
                  \<and> get_value (flatten t) [GetAbsFromIdx_shape (Shape t) idx] = get_value t idx))"
proof -
  have fl: "flatten t = FlattenOp t"
    using assms by (simp add: flatten_def)
  have "fold (\<lambda>r size. index_wrap (size * Size t r)) [0..<Rank t] (index_wrap 1)
      = index_wrap (1 * prod_list (map (Size t) [0..<Rank t]))"
    by (rule fold_wrap_prod_list)
  moreover have "index_wrap 1 = 1" by (simp add: index_wrap_def)
  ultimately have wsz: "Size (flatten t) 0 = index_wrap (prod_list (Shape t))"
    by (simp add: fl FlattenOp_def FlattenOp_Size_def Shape_def)
  have el: "get_value (flatten t) [k] = get_value t (GetIdxFromAbs t k)" for k
    by (simp add: fl FlattenOp_def RandomOperatorIterator_deref_def)
  have rep: "Size (flatten t) 0 = prod_list (Shape t)
          \<and> (\<forall>k. 0 \<le> k \<and> k < Size (flatten t) 0 \<and> (\<forall>s\<in>set (Shape t). 0 \<le> s)
                \<longrightarrow> in_range (Shape t) (GetIdxFromAbs t k))
          \<and> (\<forall>idx. in_range (Shape t) idx
                \<longrightarrow> in_range (Shape (flatten t)) [GetAbsFromIdx_shape (Shape t) idx]
                  \<and> get_value (flatten t) [GetAbsFromIdx_shape (Shape t) idx] = get_value t idx)"
    if fits: "- (2 ^ 63) \<le> prod_list (Shape t) \<and> prod_list (Shape t) < 2 ^ 63"
  proof -
    have sz: "Size (flatten t) 0 = prod_list (Shape t)"
      using wsz fits by (simp add: index_wrap_representable)
    have valid: "in_range (Shape t) (GetIdxFromAbs t k)"
      if "0 \<le> k \<and> k < Size (flatten t) 0 \<and> (\<forall>s\<in>set (Shape t). 0 \<le> s)" for k
      using that GetIdxFromAbs_in_range [of k "Shape t"] by (simp add: sz GetIdxFromAbs_def)
    have rt: "in_range (Shape (flatten t)) [GetAbsFromIdx_shape (Shape t) idx]
            \<and> get_value (flatten t) [GetAbsFromIdx_shape (Shape t) idx] = get_value t idx"
      if "in_range (Shape t) idx" for idx
    proof -
      have ne: "Shape t \<noteq> []" using assms by (auto simp: Shape_def)
      have b: "0 \<le> GetAbsFromIdx_shape (Shape t) idx"
          "GetAbsFromIdx_shape (Shape t) idx < prod_list (Shape t)"
        using GetAbsFromIdx_bounds [OF that] ne by auto
      have "Shape (flatten t) = [prod_list (Shape t)]"
        using sz by (simp add: Shape_def fl FlattenOp_def)
      then show ?thesis
        using b by (simp add: el GetIdxFromAbs_def GetIdxFromAbs_GetAbsFromIdx [OF that])
    qed
    show ?thesis using sz valid rt by blast
  qed
  have "Rank (flatten t) = 1" by (simp add: fl FlattenOp_def)
  then show ?thesis using wsz el rep by blast
qed

theorem flatten_size_and_element_witness:
  "Size (flatten (tensor [2, 3] [10, 11, 12, 20, 21, 22 :: int])) 0 = 6
   \<and> get_value (flatten (tensor [2, 3] [10, 11, 12, 20, 21, 22 :: int])) [4]
       = get_value (tensor [2, 3] [10, 11, 12, 20, 21, 22]) [1, 1]
   \<and> get_value (flatten (tensor [2, 3] [10, 11, 12, 20, 21, 22 :: int])) [4] = 21"
proof -
  let ?t = "tensor [2, 3] [10, 11, 12, 20, 21, 22 :: int]"
  have r: "1 < Rank ?t" by (simp add: tensor_def)
  have sh: "Shape ?t = [2, 3]" by (simp add: Shape_def tensor_def upt_conv_Cons)
  have fits: "- (2 ^ 63) \<le> prod_list (Shape ?t) \<and> prod_list (Shape ?t) < 2 ^ 63"
    by (simp add: sh)
  have i: "in_range (Shape ?t) [1, 1]" by (simp add: sh)
  have a: "GetAbsFromIdx_shape (Shape ?t) [1, 1] = 4" by (simp add: sh)
  have v: "get_value ?t [1, 1] = 21" by (simp add: tensor_def)
  note T = flatten_size_and_element [OF r, THEN conjunct2, THEN conjunct2, THEN conjunct2,
      THEN mp, OF fits]
  have s6: "Size (flatten ?t) 0 = 6"
    using T [THEN conjunct1] by (simp add: sh)
  have e: "get_value (flatten ?t) [4] = get_value ?t [1, 1]"
    using T [THEN conjunct2, THEN conjunct2, THEN spec, of "[1, 1]"] i a by simp
  show ?thesis
    using s6 e v by simp
qed

text \<open>
  C8 as stated fails: for the node of rank 2, size \<open>[2^32, 2^32]\<close> and constant element 0,
  the product \<open>2^64\<close> of the sizes is not an \<open>index_t\<close>, and the flattened node has size 0.
\<close>

theorem flatten_size_overflow_counterexample:
  "Shape \<lparr>Rank = 2, Size = (\<lambda>d. 2 ^ 32), get_value = (\<lambda>idx. 0 :: int)\<rparr> = [2 ^ 32, 2 ^ 32]
   \<and> Size (flatten \<lparr>Rank = 2, Size = (\<lambda>d. 2 ^ 32), get_value = (\<lambda>idx. 0 :: int)\<rparr>) 0 = 0
   \<and> prod_list (Shape \<lparr>Rank = 2, Size = (\<lambda>d. 2 ^ 32), get_value = (\<lambda>idx. 0 :: int)\<rparr>)
        = 2 ^ 64"
  by (simp add: flatten_def FlattenOp_def FlattenOp_Size_def Shape_def index_wrap_def
      upt_conv_Cons)

subsection \<open>Slice\<close>







text \<open>
  The scenario of a node of size \<open>[3,4]\<close> sliced with \<open>starts = [0,1]\<close>, \<open>ends = [3,3]\<close>:
  the slice has size \<open>[3,2]\<close> and its element \<open>(1,0)\<close> is the inner element \<open>(1,1)\<close>.
\<close>

lemma slice_scenario_3x4:
  "(case slice sentinels64 2
           (ReverseOp 0 (tensor [3, 4] [20, 21, 22, 23, 10, 11, 12, 13, 0, 1, 2, 3 :: int]))
           [0, 1] [3, 3] None of
      Inl e \<Rightarrow> False
    | Inr s \<Rightarrow> Shape s = [3, 2]
        \<and> get_value s [1, 0]
          = get_value
             (ReverseOp 0 (tensor [3, 4] [20, 21, 22, 23, 10, 11, 12, 13, 0, 1, 2, 3 :: int]))
             [1, 1])"
  by (simp add: slice_def SliceOp_ctor_def SliceOp_get_impl_def sentinels64_def Shape_def
      resolve_index_def upt_conv_Cons ReverseOp_def ReverseOp_get_impl_def tensor_def)

text \<open>
  C1. Let \<open>t\<close> be the rank-2 node of size \<open>[3,4]\<close> with element \<open>(i,j) = 10 i + j\<close> (the
  reverse of a tensor along dimension 0). Its slice with \<open>starts = [1,2]\<close> and
  \<open>ends = [matxDropDim, matxEnd]\<close> is built without error and has size \<open>[2]\<close>. Element \<open>0\<close>
  of the slice is the inner element \<open>(1,1)\<close>: the kept inner dimension 1 is read at
  \<open>starts[0] + 0\<close>, not at \<open>starts[1] + 0\<close>, which is the inner element \<open>(1,2)\<close>.
\<close>

theorem slice_dropped_dim_wrong_start:
  "(case slice sentinels64 1
           (ReverseOp 0 (tensor [3, 4] [20, 21, 22, 23, 10, 11, 12, 13, 0, 1, 2, 3 :: int]))
           [1, 2] [matxDropDim sentinels64, matxEnd sentinels64] None of
      Inl e \<Rightarrow> False
    | Inr s \<Rightarrow> Rank s = 1 \<and> Size s 0 = 2 \<and> get_value s [0] = 11
        \<and> get_value
             (ReverseOp 0 (tensor [3, 4] [20, 21, 22, 23, 10, 11, 12, 13, 0, 1, 2, 3 :: int]))
             [1, 1] = 11
        \<and> get_value
             (ReverseOp 0 (tensor [3, 4] [20, 21, 22, 23, 10, 11, 12, 13, 0, 1, 2, 3 :: int]))
             [1, 2 + 0] = 12)"
  by (simp add: slice_def SliceOp_ctor_def SliceOp_get_impl_def sentinels64_def
      resolve_index_def upt_conv_Cons ReverseOp_def ReverseOp_get_impl_def tensor_def)









subsection \<open>Nearest-neighbour interpolation\<close>







subsection \<open>Capability negotiation\<close>

lemma fold_min_ge: "(a::nat) \<le> s \<Longrightarrow> \<forall>c\<in>set cs. a \<le> c \<Longrightarrow> a \<le> fold min cs s"
  by (induction cs arbitrary: s) auto

lemma ept_at_least_ONE:
  "ONE \<le> default_value A ELEMENTS_PER_THREAD \<Longrightarrow>
   list_all (\<lambda>declared. ONE \<le> declared ELEMENTS_PER_THREAD) (leaves_declare t) \<Longrightarrow>
   ONE \<le> get_capability A ELEMENTS_PER_THREAD t"
proof (induction t)
  case (CustomNode ops)
  have "\<forall>c\<in>set (map (get_capability A ELEMENTS_PER_THREAD) ops). ONE \<le> c"
    using CustomNode by (auto simp: list_all_iff)
  then show ?case
    using CustomNode.prems(1) by (simp add: combine_capabilities_def fold_min_ge)
qed (auto simp: combine_capabilities_def)

text \<open>
  C5. Every non-contiguous view (slice, reverse, remap, repeat, flatten) answers the
  ELEMENTS_PER_THREAD query with \<open>ONE\<close>, whatever it wraps; so the granularity of a tree
  wrapped in such a view is at most the granularity of the tree itself, whose leaves and
  default declare at least \<open>ONE\<close>.
\<close>

theorem view_granularity_le:
  assumes "granularity_ok A t" and "granularity_ok A idx"
  shows "\<forall>w \<in> {SliceNode t, ReverseNode t, RemapNode t idx, RepMatNode t, FlattenNode t}.
           get_capability A ELEMENTS_PER_THREAD w = ONE
         \<and> get_capability A ELEMENTS_PER_THREAD w \<le> get_capability A ELEMENTS_PER_THREAD t"
proof -
  have "ONE \<le> get_capability A ELEMENTS_PER_THREAD t"
    using assms(1) by (simp add: granularity_ok_def ept_at_least_ONE)
  then show ?thesis by simp
qed

theorem view_granularity_le_witness:
  "get_capability \<lparr>default_value = (\<lambda>Cap. 32), combine_other = (\<lambda>k. min)\<rparr>
      ELEMENTS_PER_THREAD (ReverseNode (CustomNode [Leaf (\<lambda>Cap. 4), Leaf (\<lambda>Cap. 8 :: nat)])) = ONE
   \<and> get_capability \<lparr>default_value = (\<lambda>Cap. 32), combine_other = (\<lambda>k. min)\<rparr>
      ELEMENTS_PER_THREAD (CustomNode [Leaf (\<lambda>Cap. 4), Leaf (\<lambda>Cap :: unit OperatorCapability. 8)]) = 4"
proof -
  let ?A = "\<lparr>default_value = (\<lambda>Cap :: unit OperatorCapability. 32 :: nat), combine_other = (\<lambda>k. min)\<rparr>"
  let ?t = "CustomNode [Leaf (\<lambda>Cap. 4), Leaf (\<lambda>Cap :: unit OperatorCapability. 8 :: nat)]"
  have g: "granularity_ok ?A ?t"
    by (simp add: granularity_ok_def ONE_def)
  have v: "get_capability ?A ELEMENTS_PER_THREAD ?t = 4"
    by (simp add: combine_capabilities_def)
  show ?thesis
    using view_granularity_le [OF g g] v by simp
qed

subsection \<open>Host executor\<close>






lemma Exec_Shape_ElementwiseOp [simp]: "Exec_Shape (ElementwiseOp shape f) = shape"
  by (simp add: Exec_Shape_def ElementwiseOp_def map_nth)




subsection \<open>Transform lifecycle\<close>

lemma TransformOp_PreRun_unfold:
  assumes "PreRun a hp = (a1, hpa)"
  shows "PreRun (TransformOp a prov dims tmp ptr) hp =
     (TransformOp a1 prov dims \<lparr>impl_data = Some (next_handle hpa), impl_shape = dims\<rparr>
        (Some (next_handle hpa)),
      hpa\<lparr>live := (live hpa)(next_handle hpa \<mapsto>
            \<lparr>buf_size = nat (prod_list dims),
             cells = (\<lambda>c. if c < nat (prod_list dims)
                           then Some (prov (snd (matxAlloc hpa (nat (prod_list dims)))) dims
                                  (GetIdxFromAbs_shape dims (int c)))
                           else None)\<rparr>),
          next_handle := Suc (next_handle hpa)\<rparr>)"
  using assms
  by (simp add: AllocateTempTensor_def matxAlloc_def TransformOp_Exec_def
      provider_fill_def Let_def cong: if_cong)

lemma heap_ok_fresh: "heap_ok h \<Longrightarrow> next_handle h \<le> q \<Longrightarrow> live h q = None"
  by (cases "live h q") (auto simp: heap_ok_def dom_def)

lemma upt_append_upt: "a \<le> b \<Longrightarrow> b \<le> c \<Longrightarrow> [a..<b] @ [b..<c] = [a..<c]"
  using upt_add_eq_append [of a b "c - b"] by simp

lemma PreRun_allocates_both:
  "(heap_ok (hp :: 'b heap) \<longrightarrow> (\<forall>x1 hp1. PreRun x hp = (x1, hp1) \<longrightarrow>
      heap_ok hp1
    \<and> next_handle hp \<le> next_handle hp1
    \<and> held_ptrs x1 = [next_handle hp..<next_handle hp1]
    \<and> (\<forall>q<next_handle hp. live hp1 q = live hp q)
    \<and> dom (live hp1) = dom (live hp) \<union> {next_handle hp..<next_handle hp1}))"
  "(heap_ok (hq :: 'b heap) \<longrightarrow> (\<forall>xs1 hq1. PreRun_operands xs hq = (xs1, hq1) \<longrightarrow>
      heap_ok hq1
    \<and> next_handle hq \<le> next_handle hq1
    \<and> concat (map held_ptrs xs1) = [next_handle hq..<next_handle hq1]
    \<and> (\<forall>q<next_handle hq. live hq1 q = live hq q)
    \<and> dom (live hq1) = dom (live hq) \<union> {next_handle hq..<next_handle hq1}))"
proof (induction x hp and xs hq rule: PreRun_PreRun_operands.induct)
  case (1 hp)
  then show ?case by auto
next
  case (2 ops hp)
  show ?case
  proof (intro impI allI)
    fix x1 hp1
    assume ok: "heap_ok hp" and pre: "PreRun (ForwardOp ops) hp = (x1, hp1)"
    obtain ops1 hpa where a: "PreRun_operands ops hp = (ops1, hpa)"
      by (cases "PreRun_operands ops hp") auto
    then have "x1 = ForwardOp ops1" "hp1 = hpa" using pre by auto
    then show "heap_ok hp1
      \<and> next_handle hp \<le> next_handle hp1
      \<and> held_ptrs x1 = [next_handle hp..<next_handle hp1]
      \<and> (\<forall>q<next_handle hp. live hp1 q = live hp q)
      \<and> dom (live hp1) = dom (live hp) \<union> {next_handle hp..<next_handle hp1}"
      using "2.IH" ok a by simp
  qed
next
  case (3 a prov dims tmp ptr hp)
  show ?case
  proof (intro impI allI)
    fix x1 hp1
    assume ok0: "heap_ok hp" and pre: "PreRun (TransformOp a prov dims tmp ptr) hp = (x1, hp1)"
    obtain a1 hpa where a: "PreRun a hp = (a1, hpa)" by (cases "PreRun a hp") auto
    let ?p = "next_handle hpa"
    let ?b = "\<lparr>buf_size = nat (prod_list dims),
               cells = (\<lambda>c. if c < nat (prod_list dims)
                             then Some (prov (snd (matxAlloc hpa (nat (prod_list dims)))) dims
                                    (GetIdxFromAbs_shape dims (int c)))
                             else None)\<rparr>"
    have x1: "x1 = TransformOp a1 prov dims \<lparr>impl_data = Some ?p, impl_shape = dims\<rparr> (Some ?p)"
      and hp1: "hp1 = hpa\<lparr>live := (live hpa)(?p \<mapsto> ?b), next_handle := Suc ?p\<rparr>"
      using pre TransformOp_PreRun_unfold [OF a, of prov dims tmp ptr] by auto
    have oka: "heap_ok hpa" and lea: "next_handle hp \<le> ?p"
      and helda: "held_ptrs a1 = [next_handle hp..<?p]"
      and olda: "\<forall>q<next_handle hp. live hpa q = live hp q"
      and dma: "dom (live hpa) = dom (live hp) \<union> {next_handle hp..<?p}"
      using "3.IH" ok0 a by blast+
    have ok: "heap_ok hp1"
      unfolding heap_ok_def
    proof
      fix q assume "q \<in> dom (live hp1)"
      then have "q = ?p \<or> q \<in> dom (live hpa)" by (auto simp: hp1 split: if_splits)
      then have "q \<le> ?p" using oka by (auto simp: heap_ok_def dom_def less_imp_le)
      then show "q < next_handle hp1" by (simp add: hp1)
    qed
    have le: "next_handle hp \<le> next_handle hp1"
      using lea by (simp add: hp1)
    have held: "held_ptrs x1 = [next_handle hp..<next_handle hp1]"
      using lea helda by (simp add: x1 hp1)
    have old: "\<forall>q<next_handle hp. live hp1 q = live hp q"
      using lea olda by (simp add: hp1)
    have "dom (live hp1) = insert ?p (dom (live hpa))"
      by (simp add: hp1)
    also have "\<dots> = dom (live hp) \<union> {next_handle hp..<next_handle hp1}"
      using lea by (auto simp: dma hp1)
    finally have dm: "dom (live hp1) = dom (live hp) \<union> {next_handle hp..<next_handle hp1}" .
    show "heap_ok hp1
      \<and> next_handle hp \<le> next_handle hp1
      \<and> held_ptrs x1 = [next_handle hp..<next_handle hp1]
      \<and> (\<forall>q<next_handle hp. live hp1 q = live hp q)
      \<and> dom (live hp1) = dom (live hp) \<union> {next_handle hp..<next_handle hp1}"
      using ok le held old dm by blast
  qed
next
  case (4 hq)
  then show ?case by auto
next
  case (5 op ops hq)
  show ?case
  proof (intro impI allI)
    fix xs1 hq1
    assume ok0: "heap_ok hq" and pre: "PreRun_operands (op # ops) hq = (xs1, hq1)"
    obtain op1 hpa where a: "PreRun op hq = (op1, hpa)" by (cases "PreRun op hq") auto
    obtain ops1 hpb where b: "PreRun_operands ops hpa = (ops1, hpb)"
      by (cases "PreRun_operands ops hpa") auto
    have xs1: "xs1 = op1 # ops1" and hq1: "hq1 = hpb" using pre a b by auto
    have oka: "heap_ok hpa" and lea: "next_handle hq \<le> next_handle hpa"
      and helda: "held_ptrs op1 = [next_handle hq..<next_handle hpa]"
      and olda: "\<forall>q<next_handle hq. live hpa q = live hq q"
      and dma: "dom (live hpa) = dom (live hq) \<union> {next_handle hq..<next_handle hpa}"
      using "5.IH"(1) ok0 a by blast+
    have okb: "heap_ok hpb" and leb: "next_handle hpa \<le> next_handle hpb"
      and heldb: "concat (map held_ptrs ops1) = [next_handle hpa..<next_handle hpb]"
      and oldb: "\<forall>q<next_handle hpa. live hpb q = live hpa q"
      and dmb: "dom (live hpb) = dom (live hpa) \<union> {next_handle hpa..<next_handle hpb}"
      using "5.IH"(2) [OF a [symmetric] refl] oka b by blast+
    have held: "concat (map held_ptrs xs1) = [next_handle hq..<next_handle hq1]"
      using lea leb by (simp add: xs1 hq1 helda heldb upt_append_upt)
    have old: "\<forall>q<next_handle hq. live hq1 q = live hq q"
      using lea olda oldb by (simp add: hq1)
    have dm: "dom (live hq1) = dom (live hq) \<union> {next_handle hq..<next_handle hq1}"
      using lea leb by (auto simp: hq1 dma dmb)
    show "heap_ok hq1
      \<and> next_handle hq \<le> next_handle hq1
      \<and> concat (map held_ptrs xs1) = [next_handle hq..<next_handle hq1]
      \<and> (\<forall>q<next_handle hq. live hq1 q = live hq q)
      \<and> dom (live hq1) = dom (live hq) \<union> {next_handle hq..<next_handle hq1}"
      using okb lea leb held old dm by (simp add: hq1)
  qed
qed

lemma PreRun_allocates:
  assumes "heap_ok hp" and "PreRun x hp = (x1, hp1)"
  shows "heap_ok hp1
    \<and> next_handle hp \<le> next_handle hp1
    \<and> held_ptrs x1 = [next_handle hp..<next_handle hp1]
    \<and> (\<forall>q<next_handle hp. live hp1 q = live hp q)
    \<and> dom (live hp1) = dom (live hp) \<union> {next_handle hp..<next_handle hp1}"
  using PreRun_allocates_both(1) [of hp x] assms by blast

lemma PostRun_frees_both:
  "(distinct (held_ptrs x) \<and> set (held_ptrs x) \<subseteq> dom (live (hp :: 'b heap)) \<longrightarrow>
      (\<exists>hp'. PostRun x hp = Inr hp' \<and> live hp' = live hp |` (- set (held_ptrs x))
        \<and> next_handle hp' = next_handle hp))"
  "(distinct (concat (map held_ptrs xs))
      \<and> set (concat (map held_ptrs xs)) \<subseteq> dom (live (hq :: 'b heap)) \<longrightarrow>
      (\<exists>hq'. PostRun_operands xs hq = Inr hq'
        \<and> live hq' = live hq |` (- set (concat (map held_ptrs xs)))
        \<and> next_handle hq' = next_handle hq))"
proof (induction x hp and xs hq rule: PostRun_PostRun_operands.induct)
  case (1 hp)
  then show ?case by simp
next
  case (2 ops hp)
  then show ?case by simp
next
  case (3 a prov dims tmp ptr hp)
  show ?case
  proof
    assume pr: "distinct (held_ptrs (TransformOp a prov dims tmp ptr))
      \<and> set (held_ptrs (TransformOp a prov dims tmp ptr)) \<subseteq> dom (live hp)"
    then have d: "distinct (held_ptrs a)" and s: "set (held_ptrs a) \<subseteq> dom (live hp)"
      by auto
    obtain hp1 where p1: "PostRun a hp = Inr hp1"
      and l1: "live hp1 = live hp |` (- set (held_ptrs a))"
      and n1: "next_handle hp1 = next_handle hp"
      using "3.IH" d s by blast
    show "\<exists>hp'. PostRun (TransformOp a prov dims tmp ptr) hp = Inr hp'
        \<and> live hp' = live hp |` (- set (held_ptrs (TransformOp a prov dims tmp ptr)))
        \<and> next_handle hp' = next_handle hp"
    proof (cases ptr)
      case None
      then show ?thesis using p1 l1 n1 by (simp add: matxFree_def)
    next
      case (Some p)
      have "p \<notin> set (held_ptrs a)" and "p \<in> dom (live hp)"
        using pr Some by auto
      then have lv: "p \<in> dom (live hp1)" by (auto simp: l1 restrict_map_def)
      have "(live hp1)(p := None) = live hp |` (- (set (held_ptrs a) \<union> {p}))"
        by (auto simp: l1 restrict_map_def fun_eq_iff)
      then show ?thesis
        using p1 lv n1 Some by (simp add: matxFree_def)
    qed
  qed
next
  case (4 hq)
  then show ?case by simp
next
  case (5 op ops hq)
  show ?case
  proof
    assume pr: "distinct (concat (map held_ptrs (op # ops)))
      \<and> set (concat (map held_ptrs (op # ops))) \<subseteq> dom (live hq)"
    then have d: "distinct (held_ptrs op)" and s: "set (held_ptrs op) \<subseteq> dom (live hq)"
      and d2: "distinct (concat (map held_ptrs ops))"
      and s2: "set (concat (map held_ptrs ops)) \<subseteq> dom (live hq)"
      and dj: "set (held_ptrs op) \<inter> set (concat (map held_ptrs ops)) = {}"
      by auto
    obtain hp1 where p1: "PostRun op hq = Inr hp1"
      and l1: "live hp1 = live hq |` (- set (held_ptrs op))"
      and n1: "next_handle hp1 = next_handle hq"
      using "5.IH"(1) d s by blast
    have s3: "set (concat (map held_ptrs ops)) \<subseteq> dom (live hp1)"
    proof
      fix q assume q: "q \<in> set (concat (map held_ptrs ops))"
      then have "q \<in> dom (live hq)" and "q \<notin> set (held_ptrs op)"
        using s2 dj by blast+
      then show "q \<in> dom (live hp1)"
        by (simp add: l1 restrict_map_def dom_def)
    qed
    obtain hp2 where p2: "PostRun_operands ops hp1 = Inr hp2"
      and l2: "live hp2 = live hp1 |` (- set (concat (map held_ptrs ops)))"
      and n2: "next_handle hp2 = next_handle hp1"
      using "5.IH"(2) [OF p1] d2 s3 by blast
    have "live hp2 = live hq |` (- set (concat (map held_ptrs (op # ops))))"
      by (auto simp: l1 l2 restrict_map_def fun_eq_iff)
    then show "\<exists>hq'. PostRun_operands (op # ops) hq = Inr hq'
        \<and> live hq' = live hq |` (- set (concat (map held_ptrs (op # ops))))
        \<and> next_handle hq' = next_handle hq"
      using p1 p2 n1 n2 by simp
  qed
qed

lemma PostRun_frees:
  assumes "distinct (held_ptrs x)" and "set (held_ptrs x) \<subseteq> dom (live hp)"
  shows "\<exists>hp'. PostRun x hp = Inr hp' \<and> live hp' = live hp |` (- set (held_ptrs x))
    \<and> next_handle hp' = next_handle hp"
  using PostRun_frees_both(1) [of x hp] assms by blast

lemma PreRun_PostRun_cycle:
  assumes "heap_ok hp" and "PreRun x hp = (x1, hp1)"
  shows "\<exists>hp2. PostRun x1 hp1 = Inr hp2 \<and> live hp2 = live hp \<and> heap_ok hp2"
proof -
  have ok1: "heap_ok hp1" and le: "next_handle hp \<le> next_handle hp1"
    and held: "held_ptrs x1 = [next_handle hp..<next_handle hp1]"
    and old: "\<forall>q<next_handle hp. live hp1 q = live hp q"
    and dm: "dom (live hp1) = dom (live hp) \<union> {next_handle hp..<next_handle hp1}"
    using PreRun_allocates [OF assms] by blast+
  have d: "distinct (held_ptrs x1)" by (simp add: held)
  have s: "set (held_ptrs x1) \<subseteq> dom (live hp1)" by (auto simp: held dm)
  obtain hp2 where p: "PostRun x1 hp1 = Inr hp2"
    and l: "live hp2 = live hp1 |` (- set (held_ptrs x1))"
    and n: "next_handle hp2 = next_handle hp1"
    using PostRun_frees [OF d s] by blast
  have eq: "live hp2 q = live hp q" for q
  proof (cases "q < next_handle hp")
    case True
    then show ?thesis using old by (simp add: l held restrict_map_def)
  next
    case False
    then have "live hp q = None" using assms(1) by (simp add: heap_ok_fresh)
    moreover have "live hp2 q = None"
    proof (cases "q < next_handle hp1")
      case True
      then show ?thesis using False by (simp add: l held restrict_map_def)
    next
      case False
      then have "live hp1 q = None" using ok1 by (simp add: heap_ok_fresh)
      then show ?thesis by (simp add: l restrict_map_def)
    qed
    ultimately show ?thesis by simp
  qed
  then have live: "live hp2 = live hp" by (rule ext)
  have "heap_ok hp2"
    using assms(1) le by (auto simp: heap_ok_def dom_def live n)
  then show ?thesis using p live by blast
qed

lemma PreRun_PostRun_cycles_restore:
  "heap_ok hp \<Longrightarrow>
   \<exists>nd' hp'. PreRun_PostRun_cycles c nd hp = Inr (nd', hp') \<and> live hp' = live hp"
proof (induction c arbitrary: nd hp)
  case 0
  then show ?case by simp
next
  case (Suc c)
  obtain nd1 hp1 where pre: "PreRun nd hp = (nd1, hp1)" by (cases "PreRun nd hp") auto
  obtain hp2 where post: "PostRun nd1 hp1 = Inr hp2" and l: "live hp2 = live hp"
    and ok: "heap_ok hp2"
    using PreRun_PostRun_cycle [OF Suc.prems pre] by blast
  obtain nd' hp' where "PreRun_PostRun_cycles c nd1 hp2 = Inr (nd', hp')"
    and "live hp' = live hp2"
    using Suc.IH [OF ok] by blast
  then show ?case
    using pre post l by simp
qed

lemma tensor_impl_get_filled:
  assumes "in_range dims idx"
    and "live hp p = Some b"
    and "\<forall>k<nat (prod_list dims). cells b k = Some (g (GetIdxFromAbs_shape dims (int k)))"
  shows "tensor_impl_get hp \<lparr>impl_data = Some p, impl_shape = dims\<rparr> idx = Some (g idx)"
proof -
  let ?k = "GetAbsFromIdx_shape dims idx"
  have nn: "0 \<le> ?k" using GetAbsFromIdx_bounds [OF assms(1)] by simp
  have lt: "?k < prod_list dims"
  proof (cases "dims = []")
    case True
    then show ?thesis by simp
  next
    case False
    then show ?thesis using GetAbsFromIdx_bounds [OF assms(1)] by simp
  qed
  have c: "nat ?k < nat (prod_list dims)" using nn lt by simp
  have rt: "GetIdxFromAbs_shape dims (int (nat ?k)) = idx"
    using nn GetIdxFromAbs_GetAbsFromIdx [OF assms(1)] by simp
  show ?thesis
    using assms(2,3) c rt by (simp add: tensor_impl_get_def)
qed

text \<open>
  C4 (amended). Let a transform node with a temporary output (a standard-deviation,
  histogram, covariance or all-reduction node) have the operand \<open>a\<close>, the provider \<open>prov\<close>
  and the declared output shape \<open>dims\<close>; let \<open>hpa\<close> be the heap that the operand's \<open>PreRun\<close>
  leaves, and \<open>p\<close> its next handle. \<open>PreRun\<close> of the node, from a heap \<open>hp\<close>:

  \<^item> records \<open>p\<close> in \<open>ptr\<close> and in \<open>tmp_out_\<close>, with the shape \<open>dims\<close>;
  \<^item> \<open>p\<close> is fresh, and every other buffer is as the operand's \<open>PreRun\<close> left it;
  \<^item> the buffer of \<open>p\<close> has as many elements as \<open>dims\<close>, and every one of its cells holds
    the value that the provider computed for the coordinate tuple of that cell;
  \<^item> the element access of the node is, in every heap, the read of the cell of the buffer
    of \<open>p\<close> at the row-major offset of the coordinates, and nothing else;
  \<^item> so after \<open>PreRun\<close> the access at valid coordinates is the value the provider computed;
  \<^item> the matching \<open>PostRun\<close> ends without a free error: the operand's \<open>PostRun\<close> leaves
    the buffer of \<open>p\<close> live, the node then frees \<open>p\<close> and no other buffer, and the live
    buffers are again those of \<open>hp\<close>;
  \<^item> any number of matched cycles on the node ends without a free error and with the live
    buffers it started from, whatever the operand.
\<close>

theorem transform_PreRun_PostRun:
  assumes "heap_ok hp"
    and "PreRun a hp = (a1, hpa)"
    and "PreRun (TransformOp a prov dims tmp ptr) hp = (nd1, hp1)"
  shows "nd1 = TransformOp a1 prov dims
              \<lparr>impl_data = Some (next_handle hpa), impl_shape = dims\<rparr> (Some (next_handle hpa))
    \<and> next_handle hpa \<notin> dom (live hpa)
    \<and> (\<forall>q. q \<noteq> next_handle hpa \<longrightarrow> live hp1 q = live hpa q)
    \<and> (\<exists>b. live hp1 (next_handle hpa) = Some b
          \<and> buf_size b = nat (prod_list dims)
          \<and> (\<forall>k<nat (prod_list dims).
                cells b k = Some (prov (snd (matxAlloc hpa (nat (prod_list dims)))) dims
                                   (GetIdxFromAbs_shape dims (int k)))))
    \<and> (\<forall>hp' idx. TransformOp_call nd1 hp' idx =
          (case live hp' (next_handle hpa) of
             None \<Rightarrow> None
           | Some b \<Rightarrow> cells b (nat (GetAbsFromIdx_shape dims idx))))
    \<and> (\<forall>idx. in_range dims idx
          \<longrightarrow> TransformOp_call nd1 hp1 idx
                = Some (prov (snd (matxAlloc hpa (nat (prod_list dims)))) dims idx))
    \<and> (\<exists>hp2 hp3. PostRun a1 hp1 = Inr hp2
          \<and> next_handle hpa \<in> dom (live hp2)
          \<and> PostRun nd1 hp1 = Inr hp3
          \<and> live hp3 = (live hp2)(next_handle hpa := None)
          \<and> live hp3 = live hp)
    \<and> (\<forall>c. \<exists>nd' hp'. PreRun_PostRun_cycles c (TransformOp a prov dims tmp ptr) hp
                = Inr (nd', hp') \<and> live hp' = live hp)"
proof -
  let ?p = "next_handle hpa"
  let ?g = "prov (snd (matxAlloc hpa (nat (prod_list dims)))) dims"
  let ?b = "\<lparr>buf_size = nat (prod_list dims),
             cells = (\<lambda>c. if c < nat (prod_list dims)
                           then Some (?g (GetIdxFromAbs_shape dims (int c)))
                           else None)\<rparr>"
  have oka: "heap_ok hpa" and helda: "held_ptrs a1 = [next_handle hp..<?p]"
    and dma: "dom (live hpa) = dom (live hp) \<union> {next_handle hp..<?p}"
    using PreRun_allocates [OF assms(1,2)] by blast+
  have nd1: "nd1 = TransformOp a1 prov dims \<lparr>impl_data = Some ?p, impl_shape = dims\<rparr> (Some ?p)"
    and hp1: "hp1 = hpa\<lparr>live := (live hpa)(?p \<mapsto> ?b), next_handle := Suc ?p\<rparr>"
    using assms(3) TransformOp_PreRun_unfold [OF assms(2), of prov dims tmp ptr] by auto
  have fresh: "?p \<notin> dom (live hpa)"
    using heap_ok_fresh [OF oka, of ?p] by auto
  have others: "\<forall>q. q \<noteq> ?p \<longrightarrow> live hp1 q = live hpa q"
    by (simp add: hp1)
  have lb: "live hp1 ?p = Some ?b"
    by (simp add: hp1)
  have filled: "\<forall>k<nat (prod_list dims). cells ?b k = Some (?g (GetIdxFromAbs_shape dims (int k)))"
    by simp
  have buf: "\<exists>b. live hp1 ?p = Some b \<and> buf_size b = nat (prod_list dims)
          \<and> (\<forall>k<nat (prod_list dims). cells b k = Some (?g (GetIdxFromAbs_shape dims (int k))))"
    using lb filled by (intro exI [of _ ?b]) simp
  have rd: "\<forall>hp' idx. TransformOp_call nd1 hp' idx =
          (case live hp' ?p of
             None \<Rightarrow> None
           | Some b \<Rightarrow> cells b (nat (GetAbsFromIdx_shape dims idx)))"
    by (simp add: nd1 TransformOp_call_def tensor_impl_get_def cong: option.case_cong)
  have access: "\<forall>idx. in_range dims idx \<longrightarrow> TransformOp_call nd1 hp1 idx = Some (?g idx)"
  proof (intro allI impI)
    fix idx assume "in_range dims idx"
    from tensor_impl_get_filled [OF this lb filled]
    show "TransformOp_call nd1 hp1 idx = Some (?g idx)"
      by (simp add: nd1 TransformOp_call_def)
  qed
  have d: "distinct (held_ptrs a1)" by (simp add: helda)
  have s: "set (held_ptrs a1) \<subseteq> dom (live hp1)" by (auto simp: helda dma hp1)
  obtain hp2 where p2: "PostRun a1 hp1 = Inr hp2"
    and l2: "live hp2 = live hp1 |` (- set (held_ptrs a1))"
    using PostRun_frees [OF d s] by blast
  have "?p \<notin> set (held_ptrs a1)" by (simp add: helda)
  then have lv: "?p \<in> dom (live hp2)" using lb by (auto simp: l2 restrict_map_def)
  obtain hp3 where p3: "PostRun nd1 hp1 = Inr hp3" and l3: "live hp3 = live hp"
    using PreRun_PostRun_cycle [OF assms(1,3)] by blast
  have "PostRun nd1 hp1 = matxFree hp2 (Some ?p)"
    by (simp add: nd1 p2)
  then have "live hp3 = (live hp2)(?p := None)"
    using p3 lv by (auto simp: matxFree_def)
  then have post: "\<exists>hp2 hp3. PostRun a1 hp1 = Inr hp2
          \<and> ?p \<in> dom (live hp2)
          \<and> PostRun nd1 hp1 = Inr hp3
          \<and> live hp3 = (live hp2)(?p := None)
          \<and> live hp3 = live hp"
    using p2 lv p3 l3 by blast
  have cyc: "\<forall>c. \<exists>nd' hp'. PreRun_PostRun_cycles c (TransformOp a prov dims tmp ptr) hp
                = Inr (nd', hp') \<and> live hp' = live hp"
    using PreRun_PostRun_cycles_restore [OF assms(1)] by blast
  show ?thesis
    using nd1 fresh others buf rd access post cyc by blast
qed

theorem transform_PreRun_PostRun_witness:
  "TransformOp_call
     (fst (PreRun
        (StddOp_ctor (\<lambda>a ddof hp shape idx. get_value a (idx @ [0]))
           (tensor [2, 3] [1, 2, 3, 4, 5, 6 :: int])
           (ForwardOp [AllOp_ctor (\<lambda>a hp shape idx. 0)
                      (tensor [2, 3] [1, 2, 3, 4, 5, 6 :: int]) NotMatxOp 0]) 1 1)
        \<lparr>live = Map.empty, next_handle = 0\<rparr>))
     (snd (PreRun
        (StddOp_ctor (\<lambda>a ddof hp shape idx. get_value a (idx @ [0]))
           (tensor [2, 3] [1, 2, 3, 4, 5, 6 :: int])
           (ForwardOp [AllOp_ctor (\<lambda>a hp shape idx. 0)
                      (tensor [2, 3] [1, 2, 3, 4, 5, 6 :: int]) NotMatxOp 0]) 1 1)
        \<lparr>live = Map.empty, next_handle = 0\<rparr>))
     [1] = Some 4
   \<and> xf_ptr (fst (PreRun
        (StddOp_ctor (\<lambda>a ddof hp shape idx. get_value a (idx @ [0]))
           (tensor [2, 3] [1, 2, 3, 4, 5, 6 :: int])
           (ForwardOp [AllOp_ctor (\<lambda>a hp shape idx. 0)
                      (tensor [2, 3] [1, 2, 3, 4, 5, 6 :: int]) NotMatxOp 0]) 1 1)
        \<lparr>live = Map.empty, next_handle = 0\<rparr>)) = Some 1
   \<and> (case live (snd (PreRun
        (StddOp_ctor (\<lambda>a ddof hp shape idx. get_value a (idx @ [0]))
           (tensor [2, 3] [1, 2, 3, 4, 5, 6 :: int])
           (ForwardOp [AllOp_ctor (\<lambda>a hp shape idx. 0)
                      (tensor [2, 3] [1, 2, 3, 4, 5, 6 :: int]) NotMatxOp 0]) 1 1)
        \<lparr>live = Map.empty, next_handle = 0\<rparr>)) 1 of
        None \<Rightarrow> False
      | Some b \<Rightarrow> buf_size b = 2 \<and> cells b 0 = Some 1 \<and> cells b 1 = Some 4)
   \<and> (\<exists>nd' hp'. PreRun_PostRun_cycles 2
          (StddOp_ctor (\<lambda>a ddof hp shape idx. get_value a (idx @ [0]))
             (tensor [2, 3] [1, 2, 3, 4, 5, 6 :: int])
             (ForwardOp [AllOp_ctor (\<lambda>a hp shape idx. 0)
                        (tensor [2, 3] [1, 2, 3, 4, 5, 6 :: int]) NotMatxOp 0]) 1 1)
          \<lparr>live = Map.empty, next_handle = 0\<rparr> = Inr (nd', hp')
        \<and> live hp' = Map.empty)"
proof -
  let ?t = "tensor [2, 3] [1, 2, 3, 4, 5, 6 :: int]"
  let ?a = "ForwardOp [AllOp_ctor (\<lambda>(a :: int Op) (hp :: int heap) (shape :: index_t list)
      (idx :: index_t list). 0 :: int) ?t NotMatxOp 0]"
  let ?prov = "\<lambda>(hp :: int heap) (shape :: index_t list) idx. get_value ?t (idx @ [0])"
  let ?null = "\<lparr>impl_data = None, impl_shape = []\<rparr>"
  let ?nd = "StddOp_ctor (\<lambda>(a :: int Op) (ddof :: int) (hp :: int heap)
      (shape :: index_t list) idx. get_value a (idx @ [0])) ?t ?a 1 1"
  let ?hp = "\<lparr>live = Map.empty, next_handle = 0\<rparr> :: int heap"
  have nd: "?nd = TransformOp ?a ?prov [2] ?null None"
    by (simp add: StddOp_ctor_def tensor_def)
  have ok: "heap_ok ?hp" by (simp add: heap_ok_def)
  have p: "next_handle (snd (PreRun ?a ?hp)) = 1"
    by (simp add: AllOp_ctor_def AllocateTempTensor_def matxAlloc_def TransformOp_Exec_def
        provider_fill_def Let_def)
  have rng: "in_range [2] [1]" by simp
  have v0: "?prov h [2] (GetIdxFromAbs_shape [2] (int 0)) = 1"
    and v1: "?prov h [2] (GetIdxFromAbs_shape [2] (int 1)) = 4"
    and v: "?prov h [2] [1] = 4" for h
    by (simp_all add: tensor_def)
  note T = transform_PreRun_PostRun [where a = ?a and prov = ?prov and dims = "[2]"
      and tmp = ?null and ptr = None and hp = ?hp,
      OF ok prod.collapse [symmetric] prod.collapse [symmetric], unfolded p]
  have a: "TransformOp_call (fst (PreRun ?nd ?hp)) (snd (PreRun ?nd ?hp)) [1] = Some 4"
    using T [THEN conjunct2, THEN conjunct2, THEN conjunct2, THEN conjunct2, THEN conjunct2,
        THEN conjunct1, THEN spec, of "[1]"] rng v
    by (simp only: nd)
  have b: "xf_ptr (fst (PreRun ?nd ?hp)) = Some 1"
    using T [THEN conjunct1] by (simp only: nd OpTree.sel)
  obtain b where lb: "live (snd (PreRun ?nd ?hp)) 1 = Some b" and bs: "buf_size b = 2"
    and cl: "\<forall>k<2. cells b k
        = Some (?prov (snd (matxAlloc (snd (PreRun ?a ?hp)) 2)) [2]
                  (GetIdxFromAbs_shape [2] (int k)))"
    using T [THEN conjunct2, THEN conjunct2, THEN conjunct2, THEN conjunct1]
    by (auto simp only: nd prod_list.Cons prod_list.Nil mult_1_right nat_numeral)
  have c0: "cells b 0 = Some 1" using cl [THEN spec, of 0] v0 by simp
  have c1: "cells b 1 = Some 4" using cl [THEN spec, of 1] v1 by simp
  have c: "(case live (snd (PreRun ?nd ?hp)) 1 of
        None \<Rightarrow> False
      | Some b \<Rightarrow> buf_size b = 2 \<and> cells b 0 = Some 1 \<and> cells b 1 = Some 4)"
    using lb bs c0 c1 by simp
  have d: "\<exists>nd' hp'. PreRun_PostRun_cycles 2 ?nd ?hp = Inr (nd', hp') \<and> live hp' = Map.empty"
    using T [THEN conjunct2, THEN conjunct2, THEN conjunct2, THEN conjunct2, THEN conjunct2,
        THEN conjunct2, THEN conjunct2, THEN spec, of 2]
    by (simp only: nd heap.simps)
  show ?thesis using a b c d by blast
qed

text \<open>
  C4 as stated fails for the argument-extrema node, which is a transform node:
  its \<open>PreRun\<close> allocates nothing, and it has no element access to read a buffer with.
\<close>

theorem argmin_PreRun_counterexample:
  "live (ArgMinOp_PreRun
           \<lparr>ArgMin_a = tensor [2] [7, 9 :: int], ArgMin_a_PreRun = id, ArgMin_ORank = 0\<rparr>
           \<lparr>live = Map.empty :: nat \<rightharpoonup> int buffer, next_handle = 0\<rparr>) = Map.empty
   \<and> ArgMinOp_call
        \<lparr>ArgMin_a = tensor [2] [7, 9 :: int], ArgMin_a_PreRun = (id :: int heap \<Rightarrow> int heap),
           ArgMin_ORank = 0\<rparr> [] = Inl DeletedFunction"
  by (simp add: ArgMinOp_PreRun_def ArgMinOp_call_def)

text \<open>
  C10. The argument-extrema node has no element access (the call operator is deleted),
  its \<open>Size\<close> is 0 in every dimension, and its \<open>PreRun\<close> is the operand's \<open>PreRun\<close>: the node
  allocates and fills no buffer of its own. It is evaluated through \<open>Exec\<close> alone, which
  is rejected unless its output tuple has the two bound outputs and the node, and then
  hands the value output and the index output to the provider.
\<close>

theorem argmin_not_indexable:
  "(\<forall>idx. ArgMinOp_call nd idx = Inl DeletedFunction)
   \<and> (\<forall>d. ArgMinOp_Size nd d = 0)
   \<and> (\<forall>hp. ArgMinOp_PreRun nd hp = ArgMin_a_PreRun nd hp)
   \<and> (\<forall>out st. length out \<noteq> 3 \<longrightarrow> ArgMinOp_Exec argmin_impl nd out st = Inl StaticAssertFailed)
   \<and> (\<forall>out_val out_idx self st. ArgMinOp_Exec argmin_impl nd [out_val, out_idx, self] st
         = Inr (argmin_impl out_val out_idx (ArgMin_a nd) st))"
  by (simp add: ArgMinOp_call_def ArgMinOp_Size_def ArgMinOp_PreRun_def ArgMinOp_Exec_def)

theorem argmin_not_indexable_witness:
  "ArgMinOp_Exec (\<lambda>(out_val :: bool) (out_idx :: bool) (a :: int Op) (st :: nat). st)
      \<lparr>ArgMin_a = tensor [2] [7, 9 :: int], ArgMin_a_PreRun = (\<lambda>h :: int heap. h),
         ArgMin_ORank = 0\<rparr>
      [True] 0 = Inl StaticAssertFailed
   \<and> ArgMinOp_Size
      \<lparr>ArgMin_a = tensor [2] [7, 9 :: int], ArgMin_a_PreRun = (\<lambda>h :: int heap. h),
         ArgMin_ORank = 0\<rparr> 0 = 0"
proof -
  let ?nd = "\<lparr>ArgMin_a = tensor [2] [7, 9 :: int], ArgMin_a_PreRun = (\<lambda>h :: int heap. h),
      ArgMin_ORank = 0\<rparr>"
  let ?impl = "\<lambda>(out_val :: bool) (out_idx :: bool) (a :: int Op) (st :: nat). st"
  have l: "length [True] \<noteq> 3" by simp
  note T = argmin_not_indexable [of ?nd ?impl]
  have a: "ArgMinOp_Exec ?impl ?nd [True] 0 = Inl StaticAssertFailed"
    using T [THEN conjunct2, THEN conjunct2, THEN conjunct2, THEN conjunct1] l by blast
  have b: "ArgMinOp_Size ?nd 0 = 0"
    using T [THEN conjunct2, THEN conjunct1] by blast
  show ?thesis using a b by simp
qed

end
